theory Spec2Isabelle
  imports Main "HOL-Library.Word"
begin

section \<open>Machine integers and memory\<close>

text \<open>
  \<^verbatim>\<open>size_t\<close> is taken at 64 bits (an LP64 platform): \<open>+\<close>, \<open>-\<close> and \<open>*\<close> wrap,
  \<open>div\<close> and \<open>mod\<close> and the comparisons are unsigned.
\<close>

type_synonym size_t = "64 word"
type_synonym byte = "8 word"

definition SIZE_MAX :: size_t where
  "SIZE_MAX = 0xFFFFFFFFFFFFFFFF"

text \<open>
  Memory is a set of live blocks, each a list of bytes, named by a base address. A
  pointer is a block with a byte offset into it; \<^verbatim>\<open>NULL\<close> is \<open>None\<close>. The memory also
  records, in order, every call made to the allocator, so that "no allocation is
  attempted" is a statement about \<open>calls\<close>.
\<close>

type_synonym ptr = "nat \<times> nat"

datatype call = Malloc_hdr | Free_hdr | Malloc nat | Realloc nat nat

record mem =
  blocks :: "nat \<rightharpoonup> byte list"
  calls :: "call list"

text \<open>
  What the allocator answers to one request is an input of the model: \<^verbatim>\<open>NULL\<close>, or the
  base address of the block it hands out together with the indeterminate bytes found
  in the part of that block that holds no copied data.
\<close>

datatype alloc_outcome = Alloc_fail | Alloc_ok nat "nat \<Rightarrow> byte"

definition malloc :: "alloc_outcome \<Rightarrow> nat \<Rightarrow> mem \<Rightarrow> nat option \<times> mem" where
  "malloc oc n m =
     (case oc of
        Alloc_fail \<Rightarrow> (None, m\<lparr>calls := calls m @ [Malloc n]\<rparr>)
      | Alloc_ok b junk \<Rightarrow>
          (Some b, m\<lparr>blocks := (blocks m)(b \<mapsto> map junk [0..<n]),
                      calls := calls m @ [Malloc n]\<rparr>))"

text \<open>
  \<^verbatim>\<open>realloc(p, n)\<close>: undefined (\<open>None\<close>) when \<open>p\<close> is not a live block. On failure the
  old block is left as it is. On success the old block is released and the block
  returned, at the same or at another address, has \<open>n\<close> bytes: the old bytes up to the
  smaller of the two sizes, then indeterminate ones. Which address comes back is the
  allocator's choice. A valid stack never asks for 0 bytes, the one size for which the
  C standard leaves the answer to the implementation.
\<close>

definition realloc :: "alloc_outcome \<Rightarrow> nat \<Rightarrow> nat \<Rightarrow> mem \<Rightarrow> (nat option \<times> mem) option" where
  "realloc oc p n m =
     (case blocks m p of
        None \<Rightarrow> None
      | Some old \<Rightarrow>
          (case oc of
             Alloc_fail \<Rightarrow> Some (None, m\<lparr>calls := calls m @ [Realloc p n]\<rparr>)
           | Alloc_ok b junk \<Rightarrow>
               Some (Some b,
                 m\<lparr>blocks := ((blocks m)(p := None))
                      (b \<mapsto> take n old @ map junk [length old..<n]),
                   calls := calls m @ [Realloc p n]\<rparr>)))"

text \<open>
  \<^verbatim>\<open>memcpy(target, src, n)\<close> into a block: undefined unless the \<open>n\<close> bytes written lie
  inside a live block and \<open>src\<close> has \<open>n\<close> bytes to read.
\<close>

definition memcpy :: "ptr \<Rightarrow> byte list \<Rightarrow> nat \<Rightarrow> mem \<Rightarrow> mem option" where
  "memcpy target src n m =
     (case blocks m (fst target) of
        None \<Rightarrow> None
      | Some bs \<Rightarrow>
          if snd target + n \<le> length bs \<and> n \<le> length src
          then Some (m\<lparr>blocks := (blocks m)(fst target \<mapsto>
                 take (snd target) bs @ take n src @ drop (snd target + n) bs)\<rparr>)
          else None)"

text \<open>
  What a caller gets by reading \<open>n\<close> bytes through a pointer, as the tests do with
  \<^verbatim>\<open>*(size_t *) gstack_peek(stack)\<close>: undefined when the bytes are not inside a live block.
\<close>

definition load :: "mem \<Rightarrow> ptr \<Rightarrow> nat \<Rightarrow> byte list option" where
  "load m p n =
     (case blocks m (fst p) of
        None \<Rightarrow> None
      | Some bs \<Rightarrow> if snd p + n \<le> length bs then Some (take n (drop (snd p) bs)) else None)"

section \<open>The stack structure\<close>

text \<open>
  \<^verbatim>\<open>struct gstack\<close> of gstack.h and \<^verbatim>\<open>struct stack\<close> of stack.h have the same four
  fields in the same order: \<^verbatim>\<open>data\<close>, \<^verbatim>\<open>size\<close>, \<^verbatim>\<open>cap\<close>, \<^verbatim>\<open>memb_size\<close>. The field
  \<open>s_data\<close> is the base address of the buffer.
\<close>

record gstack =
  s_data :: nat
  s_size :: size_t
  s_cap :: size_t
  s_memb_size :: size_t

type_synonym Stack = gstack

section \<open>gstack.h\<close>

definition gstack_is_full :: "gstack \<Rightarrow> bool" where
  "gstack_is_full s = (s_size s = s_cap s)"

definition gstack_is_empty :: "gstack \<Rightarrow> bool" where
  "gstack_is_empty s = (s_size s = 0)"

definition gstack_size :: "gstack \<Rightarrow> size_t" where
  "gstack_size s = s_size s"

definition gstack_peek :: "gstack \<Rightarrow> ptr option" where
  "gstack_peek s =
     (if gstack_is_empty s then None
      else Some (s_data s, unat ((s_size s - 1) * s_memb_size s)))"

text \<open>
  \<open>hdr\<close> tells whether \<^verbatim>\<open>GSTACK_MALLOC(sizeof *s)\<close> succeeds, \<open>oc\<close> is the allocator's
  answer for the buffer. The result is the structure, or \<open>None\<close> for \<^verbatim>\<open>NULL\<close>.
\<close>

definition gstack_create ::
  "bool \<Rightarrow> alloc_outcome \<Rightarrow> size_t \<Rightarrow> size_t \<Rightarrow> mem \<Rightarrow> gstack option \<times> mem" where
  "gstack_create hdr oc cap memb_size m =
     (if cap = 0 \<or> memb_size = 0 \<or> cap > SIZE_MAX div memb_size then (None, m)
      else
        let m1 = m\<lparr>calls := calls m @ [Malloc_hdr]\<rparr> in
        if hdr then
          (case malloc oc (unat (memb_size * cap)) m1 of
             (Some d, m2) \<Rightarrow>
               (Some \<lparr>s_data = d, s_size = 0, s_cap = cap, s_memb_size = memb_size\<rparr>, m2)
           | (None, m2) \<Rightarrow> (None, m2\<lparr>calls := calls m2 @ [Free_hdr]\<rparr>))
        else (None, m1))"

text \<open>
  Lines 211 to 214 of gstack.h, reached from both branches of the test for a full
  stack: the copy of \<^verbatim>\<open>memb_size\<close> bytes to index \<^verbatim>\<open>size\<close> and \<^verbatim>\<open>return ++s->size\<close>,
  which as a \<^verbatim>\<open>bool\<close> is true unless the incremented size is 0.
\<close>

definition gstack_push_copy :: "byte list \<Rightarrow> mem \<Rightarrow> gstack \<Rightarrow> (bool \<times> mem \<times> gstack) option" where
  "gstack_push_copy elem m s =
     (let target = (s_data s, unat (s_size s * s_memb_size s)) in
      case memcpy target elem (unat (s_memb_size s)) m of
        None \<Rightarrow> None
      | Some m1 \<Rightarrow> Some (s_size s + 1 \<noteq> 0, m1, s\<lparr>s_size := s_size s + 1\<rparr>))"

text \<open>
  \<open>elem\<close> holds the bytes that \<^verbatim>\<open>data\<close> points to. The division by \<^verbatim>\<open>s->memb_size\<close> is
  undefined when that is 0.
\<close>

definition gstack_push ::
  "alloc_outcome \<Rightarrow> byte list \<Rightarrow> mem \<Rightarrow> gstack \<Rightarrow> (bool \<times> mem \<times> gstack) option" where
  "gstack_push oc elem m s =
     (if s_size s \<ge> s_cap s then
        if s_cap s > SIZE_MAX div 2 then Some (False, m, s)
        else
          let s1 = s\<lparr>s_cap := s_cap s * 2\<rparr> in
          if s_memb_size s1 = 0 then None
          else if s_cap s1 > SIZE_MAX div s_memb_size s1 then Some (False, m, s1)
          else
            (case realloc oc (s_data s1) (unat (s_cap s1 * s_memb_size s1)) m of
               None \<Rightarrow> None
             | Some (None, m1) \<Rightarrow> Some (False, m1, s1)
             | Some (Some tmp, m1) \<Rightarrow> gstack_push_copy elem m1 (s1\<lparr>s_data := tmp\<rparr>))
      else gstack_push_copy elem m s)"

definition gstack_pop ::
  "alloc_outcome \<Rightarrow> mem \<Rightarrow> gstack \<Rightarrow> (ptr option \<times> mem \<times> gstack) option" where
  "gstack_pop oc m s =
     (if gstack_is_empty s then Some (None, m, s)
      else
        let s1 = s\<lparr>s_size := s_size s - 1\<rparr> in
        if s_size s1 \<noteq> 0 \<and> s_size s1 \<le> s_cap s1 div 4 then
          let new_cap = s_cap s1 div 2;
              s2 = (if s_cap s1 mod 2 \<noteq> 0 then s1\<lparr>s_cap := s_cap s1 + 1\<rparr> else s1)
          in
            (case realloc oc (s_data s2) (unat (s_memb_size s2 * new_cap)) m of
               None \<Rightarrow> None
             | Some (Some tmp, m1) \<Rightarrow>
                 let s3 = s2\<lparr>s_data := tmp, s_cap := new_cap\<rparr> in
                 Some (Some (s_data s3, unat (s_size s3 * s_memb_size s3)), m1, s3)
             | Some (None, m1) \<Rightarrow>
                 Some (Some (s_data s2, unat (s_size s2 * s_memb_size s2)), m1, s2))
        else Some (Some (s_data s1, unat (s_size s1 * s_memb_size s1)), m, s1))"

section \<open>stack.h\<close>

definition stack_is_full :: "Stack \<Rightarrow> bool" where
  "stack_is_full s = (s_size s = s_cap s)"

definition stack_is_empty :: "Stack \<Rightarrow> bool" where
  "stack_is_empty s = (s_size s = 0)"

definition stack_size :: "Stack \<Rightarrow> size_t" where
  "stack_size s = s_size s"

definition stack_peek :: "Stack \<Rightarrow> ptr option" where
  "stack_peek s =
     (if stack_is_empty s then None
      else Some (s_data s, unat ((s_size s - 1) * s_memb_size s)))"

definition stack_create ::
  "bool \<Rightarrow> alloc_outcome \<Rightarrow> size_t \<Rightarrow> size_t \<Rightarrow> mem \<Rightarrow> Stack option \<times> mem" where
  "stack_create hdr oc cap memb_size m =
     (if cap = 0 \<or> memb_size = 0 \<or> cap > SIZE_MAX div memb_size then (None, m)
      else
        let m1 = m\<lparr>calls := calls m @ [Malloc_hdr]\<rparr> in
        if hdr then
          let total_size = memb_size * cap in
          (case malloc oc (unat total_size) m1 of
             (Some d, m2) \<Rightarrow>
               (Some \<lparr>s_data = d, s_size = 0, s_cap = cap, s_memb_size = memb_size\<rparr>, m2)
           | (None, m2) \<Rightarrow> (None, m2\<lparr>calls := calls m2 @ [Free_hdr]\<rparr>))
        else (None, m1))"

text \<open>Lines 219 to 222 of stack.h; \<^verbatim>\<open>!!++s->size\<close> is true unless the new size is 0.\<close>

definition stack_push_copy :: "byte list \<Rightarrow> mem \<Rightarrow> Stack \<Rightarrow> (bool \<times> mem \<times> Stack) option" where
  "stack_push_copy elem m s =
     (let target = (s_data s, unat (s_size s * s_memb_size s)) in
      case memcpy target elem (unat (s_memb_size s)) m of
        None \<Rightarrow> None
      | Some m1 \<Rightarrow> Some (s_size s + 1 \<noteq> 0, m1, s\<lparr>s_size := s_size s + 1\<rparr>))"

text \<open>
  \<^verbatim>\<open>BUFSIZ\<close> comes from the platform's \<^verbatim>\<open>stdio.h\<close>, so it is a parameter here, already
  converted to \<^verbatim>\<open>size_t\<close> as the addition to \<^verbatim>\<open>s->cap\<close> converts it.
\<close>

text \<open>Lines 206 to 222 of stack.h, reached once \<^verbatim>\<open>s->cap\<close> has been enlarged.\<close>

definition stack_push_realloc ::
  "alloc_outcome \<Rightarrow> byte list \<Rightarrow> mem \<Rightarrow> Stack \<Rightarrow> (bool \<times> mem \<times> Stack) option" where
  "stack_push_realloc oc elem m s =
     (if s_memb_size s = 0 then None
      else if s_cap s > SIZE_MAX div s_memb_size s then Some (False, m, s)
      else
        (case realloc oc (s_data s) (unat (s_cap s * s_memb_size s)) m of
           None \<Rightarrow> None
         | Some (None, m1) \<Rightarrow> Some (False, m1, s)
         | Some (Some tmp, m1) \<Rightarrow> stack_push_copy elem m1 (s\<lparr>s_data := tmp\<rparr>)))"

definition stack_push ::
  "size_t \<Rightarrow> alloc_outcome \<Rightarrow> byte list \<Rightarrow> mem \<Rightarrow> Stack \<Rightarrow> (bool \<times> mem \<times> Stack) option" where
  "stack_push BUFSIZ oc elem m s =
     (if s_size s \<ge> s_cap s then
        if s_cap s > SIZE_MAX div 2 then
          if s_cap s + BUFSIZ < s_cap s then Some (False, m, s)
          else stack_push_realloc oc elem m (s\<lparr>s_cap := s_cap s + BUFSIZ\<rparr>)
        else stack_push_realloc oc elem m (s\<lparr>s_cap := s_cap s * 2\<rparr>)
      else stack_push_copy elem m s)"

definition stack_pop ::
  "alloc_outcome \<Rightarrow> mem \<Rightarrow> Stack \<Rightarrow> (ptr option \<times> mem \<times> Stack) option" where
  "stack_pop oc m s =
     (if stack_is_empty s then Some (None, m, s)
      else
        let s1 = s\<lparr>s_size := s_size s - 1\<rparr>;
            top = (s_data s1, unat (s_size s1 * s_memb_size s1))
        in
          if s_size s1 \<noteq> 0 \<and> s_size s1 \<le> s_cap s1 div 4 then
            (case realloc oc (s_data s1) (unat (s_cap s1 div 2 * s_memb_size s1)) m of
               None \<Rightarrow> None
             | Some (Some tmp, m1) \<Rightarrow>
                 Some (Some top, m1, s1\<lparr>s_data := tmp, s_cap := s_cap s1 div 2\<rparr>)
             | Some (None, m1) \<Rightarrow> Some (Some top, m1, s1))
          else Some (Some top, m, s1))"

section \<open>Invariants and observations\<close>

text \<open>
  The two invariants on the counters: the length is at most the capacity, and the
  capacity times the element size fits \<^verbatim>\<open>size_t\<close>.
\<close>

definition counters_ok :: "gstack \<Rightarrow> bool" where
  "counters_ok s =
     (s_size s \<le> s_cap s \<and> unat (s_cap s) * unat (s_memb_size s) \<le> unat SIZE_MAX)"

text \<open>
  A stack in a valid state: the counters are in order, the capacity and the element
  size are not 0, and the buffer is a live block of at least \<open>cap * memb_size\<close> bytes.
\<close>

definition valid :: "mem \<Rightarrow> gstack \<Rightarrow> bool" where
  "valid m s =
     (counters_ok s \<and> s_cap s \<noteq> 0 \<and> s_memb_size s \<noteq> 0 \<and>
      (case blocks m (s_data s) of
         None \<Rightarrow> False
       | Some bs \<Rightarrow> unat (s_cap s) * unat (s_memb_size s) \<le> length bs))"

text \<open>The parts of what a call returns: the C return value, the memory, the structure.\<close>

definition ret_of :: "('a \<times> mem \<times> gstack) option \<Rightarrow> 'a option" where
  "ret_of r = map_option fst r"

definition mem_of :: "('a \<times> mem \<times> gstack) option \<Rightarrow> mem option" where
  "mem_of r = map_option (fst \<circ> snd) r"

definition stack_of :: "('a \<times> mem \<times> gstack) option \<Rightarrow> gstack option" where
  "stack_of r = map_option (snd \<circ> snd) r"

text \<open>
  The element a caller reads through the pointer that peek or pop returned, as
  \<^verbatim>\<open>*(int *) stack_peek(stack)\<close> and \<^verbatim>\<open>*(int *) stack_pop(stack)\<close> in the tests: the
  \<open>memb_size\<close> bytes at that pointer, in the memory as it is after the call.
\<close>

definition peeked :: "mem \<Rightarrow> gstack \<Rightarrow> ptr option \<Rightarrow> byte list option" where
  "peeked m s r = (case r of None \<Rightarrow> None | Some p \<Rightarrow> load m p (unat (s_memb_size s)))"

definition popped :: "(ptr option \<times> mem \<times> gstack) option \<Rightarrow> byte list option" where
  "popped r =
     (case r of
        Some (Some p, m, s) \<Rightarrow> load m p (unat (s_memb_size s))
      | _ \<Rightarrow> None)"

text \<open>The counters after a call, as numbers, and the allocator calls made so far.\<close>

definition size_after :: "('a \<times> mem \<times> gstack) option \<Rightarrow> nat option" where
  "size_after r = map_option (unat \<circ> s_size) (stack_of r)"

definition cap_after :: "('a \<times> mem \<times> gstack) option \<Rightarrow> nat option" where
  "cap_after r = map_option (unat \<circ> s_cap) (stack_of r)"

definition calls_after :: "('a \<times> mem \<times> gstack) option \<Rightarrow> call list option" where
  "calls_after r = map_option calls (mem_of r)"

text \<open>Indeterminate bytes that happen to be all 0.\<close>

definition zeros :: "nat \<Rightarrow> byte" where
  "zeros i = 0"

text \<open>A memory holding one block, at address 0, and no allocator call yet.\<close>

definition one_block :: "byte list \<Rightarrow> mem" where
  "one_block bs = \<lparr>blocks = [0 \<mapsto> bs], calls = []\<rparr>"

section \<open>Arithmetic of the guards\<close>

lemma unat_SIZE_MAX: "unat SIZE_MAX = 2 ^ 64 - 1"
  by (simp add: SIZE_MAX_def)

lemma guard_iff:
  fixes c b :: size_t
  assumes "b \<noteq> 0"
  shows "(SIZE_MAX div b < c) = (unat SIZE_MAX < unat c * unat b)"
proof -
  have "0 < unat b" using assms by (simp add: unat_gt_0)
  then show ?thesis
    by (simp add: word_less_nat_alt unat_div div_less_iff_less_mult)
qed

lemma unat_mult_fits:
  fixes a b :: size_t
  assumes "unat a * unat b \<le> unat SIZE_MAX"
  shows "unat (a * b) = unat a * unat b"
proof -
  have "unat a * unat b < 2 ^ LENGTH(64)"
    using assms by (simp add: unat_SIZE_MAX)
  then show ?thesis by (simp only: unat_mult_lem)
qed

lemma half_iff:
  fixes c :: size_t
  shows "(SIZE_MAX div 2 < c) = (2 ^ 63 \<le> unat c)"
proof -
  have "(SIZE_MAX div 2 < c) = (9223372036854775807 < unat c)"
    by (simp add: word_less_nat_alt unat_div unat_SIZE_MAX)
  also have "\<dots> = (2 ^ 63 \<le> unat c)" by auto
  finally show ?thesis .
qed

lemma unat_double:
  fixes c :: size_t
  assumes "\<not> SIZE_MAX div 2 < c"
  shows "unat (c * 2) = 2 * unat c"
proof -
  have "unat c < 2 ^ 63" using assms by (simp add: half_iff)
  then have "unat c * unat (2 :: size_t) < 2 ^ LENGTH(64)" by simp
  then have "unat (c * 2) = unat c * unat (2 :: size_t)" by (simp only: unat_mult_lem)
  then show ?thesis by simp
qed

lemma unat_linear:
  fixes c b :: size_t
  assumes "\<not> c + b < c"
  shows "unat (c + b) = unat c + unat b"
proof -
  have "c \<le> c + b" using assms by simp
  then have "unat c + unat b < 2 ^ LENGTH(64)" by (simp only: no_olen_add_nat)
  then show ?thesis by (simp only: unat_add_lem)
qed

section \<open>Creation\<close>

lemma malloc_Some:
  assumes "malloc oc n m = (Some d, m')"
  shows "map_option length (blocks m' d) = Some n \<and> calls m' = calls m @ [Malloc n]"
  using assms by (cases oc) (auto simp: malloc_def)

text \<open>
  C6. Creation returns \<^verbatim>\<open>NULL\<close> and calls no allocator whenever the requested
  capacity is 0, the element size is 0, or their product does not fit \<^verbatim>\<open>size_t\<close>.
  Otherwise, when both allocations succeed, it returns a stack of length 0 and the
  requested capacity whose buffer is the block handed out by one \<^verbatim>\<open>malloc\<close> of exactly
  capacity times element size bytes; when the buffer cannot be allocated it releases
  the header and returns \<^verbatim>\<open>NULL\<close>, and when the header cannot be allocated it returns
  \<^verbatim>\<open>NULL\<close> without asking for the buffer. So whatever creation returns as a stack has
  length 0, the requested capacity and a buffer of exactly that many bytes. Both
  variants.
\<close>

theorem create_guard_and_result:
  "(cap = 0 \<or> memb_size = 0 \<or> unat SIZE_MAX < unat cap * unat memb_size \<longrightarrow>
      gstack_create hdr oc cap memb_size m = (None, m) \<and>
      stack_create hdr oc cap memb_size m = (None, m)) \<and>
   (cap \<noteq> 0 \<and> memb_size \<noteq> 0 \<and> unat cap * unat memb_size \<le> unat SIZE_MAX \<longrightarrow>
      gstack_create True (Alloc_ok d junk) cap memb_size m =
        (Some \<lparr>s_data = d, s_size = 0, s_cap = cap, s_memb_size = memb_size\<rparr>,
         m\<lparr>blocks := (blocks m)(d \<mapsto> map junk [0..<unat cap * unat memb_size]),
           calls := calls m @ [Malloc_hdr, Malloc (unat cap * unat memb_size)]\<rparr>) \<and>
      stack_create True (Alloc_ok d junk) cap memb_size m =
        (Some \<lparr>s_data = d, s_size = 0, s_cap = cap, s_memb_size = memb_size\<rparr>,
         m\<lparr>blocks := (blocks m)(d \<mapsto> map junk [0..<unat cap * unat memb_size]),
           calls := calls m @ [Malloc_hdr, Malloc (unat cap * unat memb_size)]\<rparr>) \<and>
      length (map junk [0..<unat cap * unat memb_size]) = unat cap * unat memb_size \<and>
      gstack_create True Alloc_fail cap memb_size m =
        (None, m\<lparr>calls := calls m @
           [Malloc_hdr, Malloc (unat cap * unat memb_size), Free_hdr]\<rparr>) \<and>
      stack_create True Alloc_fail cap memb_size m =
        (None, m\<lparr>calls := calls m @
           [Malloc_hdr, Malloc (unat cap * unat memb_size), Free_hdr]\<rparr>) \<and>
      gstack_create False oc cap memb_size m = (None, m\<lparr>calls := calls m @ [Malloc_hdr]\<rparr>) \<and>
      stack_create False oc cap memb_size m = (None, m\<lparr>calls := calls m @ [Malloc_hdr]\<rparr>)) \<and>
   (gstack_create hdr oc cap memb_size m = (Some s, m') \<or>
    stack_create hdr oc cap memb_size m = (Some s, m') \<longrightarrow>
      s_size s = 0 \<and> s_cap s = cap \<and> s_memb_size s = memb_size \<and>
      map_option length (blocks m' (s_data s)) = Some (unat cap * unat memb_size) \<and>
      calls m' = calls m @ [Malloc_hdr, Malloc (unat cap * unat memb_size)])"
proof -
  have same: "stack_create h a cap memb_size m = gstack_create h a cap memb_size m" for h a
    by (simp add: stack_create_def gstack_create_def Let_def)
  have refused: "gstack_create hdr oc cap memb_size m = (None, m)"
    if fail: "cap = 0 \<or> memb_size = 0 \<or> unat SIZE_MAX < unat cap * unat memb_size"
  proof -
    have "cap = 0 \<or> memb_size = 0 \<or> SIZE_MAX div memb_size < cap"
      using fail guard_iff [of memb_size cap] by blast
    then show ?thesis by (simp add: gstack_create_def)
  qed
  have passed: "gstack_create True (Alloc_ok d junk) cap memb_size m =
        (Some \<lparr>s_data = d, s_size = 0, s_cap = cap, s_memb_size = memb_size\<rparr>,
         m\<lparr>blocks := (blocks m)(d \<mapsto> map junk [0..<unat cap * unat memb_size]),
           calls := calls m @ [Malloc_hdr, Malloc (unat cap * unat memb_size)]\<rparr>) \<and>
      gstack_create True Alloc_fail cap memb_size m =
        (None, m\<lparr>calls := calls m @
           [Malloc_hdr, Malloc (unat cap * unat memb_size), Free_hdr]\<rparr>) \<and>
      gstack_create False oc cap memb_size m = (None, m\<lparr>calls := calls m @ [Malloc_hdr]\<rparr>)"
    if ok: "cap \<noteq> 0 \<and> memb_size \<noteq> 0 \<and> unat cap * unat memb_size \<le> unat SIZE_MAX"
  proof -
    have g: "\<not> SIZE_MAX div memb_size < cap"
      using ok guard_iff [of memb_size cap] by simp
    have n: "unat (memb_size * cap) = unat cap * unat memb_size"
      using ok unat_mult_fits [of cap memb_size] by (simp add: mult.commute)
    show ?thesis
      using ok g by (simp add: gstack_create_def malloc_def Let_def n)
  qed
  have made: "s_size s = 0 \<and> s_cap s = cap \<and> s_memb_size s = memb_size \<and>
      map_option length (blocks m' (s_data s)) = Some (unat cap * unat memb_size) \<and>
      calls m' = calls m @ [Malloc_hdr, Malloc (unat cap * unat memb_size)]"
    if c: "gstack_create hdr oc cap memb_size m = (Some s, m')"
  proof -
    have ng: "cap \<noteq> 0" "memb_size \<noteq> 0" "\<not> SIZE_MAX div memb_size < cap" and "hdr"
      using c by (auto simp: gstack_create_def Let_def split: if_splits)
    have fits: "unat cap * unat memb_size \<le> unat SIZE_MAX"
      using ng guard_iff [of memb_size cap] by simp
    have n: "unat (memb_size * cap) = unat cap * unat memb_size"
      using unat_mult_fits [OF fits] by (simp add: mult.commute)
    obtain d m2 where
      ma: "malloc oc (unat cap * unat memb_size) (m\<lparr>calls := calls m @ [Malloc_hdr]\<rparr>) = (Some d, m2)"
      and s: "s = \<lparr>s_data = d, s_size = 0, s_cap = cap, s_memb_size = memb_size\<rparr>"
      and m': "m' = m2"
      using c ng \<open>hdr\<close>
      by (auto simp: gstack_create_def Let_def n split: prod.splits option.splits)
    from malloc_Some [OF ma] s m' show ?thesis by simp
  qed
  have len: "length (map junk [0..<unat cap * unat memb_size]) = unat cap * unat memb_size"
    by simp
  show ?thesis
    unfolding same using refused passed made len by blast
qed

theorem create_guard_and_result_witness:
  "gstack_create True (Alloc_ok 0 zeros) (SIZE_MAX - 1000) 8 (\<lparr>blocks = Map.empty, calls = []\<rparr>)
     = (None, \<lparr>blocks = Map.empty, calls = []\<rparr>) \<and>
   stack_create True (Alloc_ok 0 zeros) (SIZE_MAX - 1000) 8 (\<lparr>blocks = Map.empty, calls = []\<rparr>)
     = (None, \<lparr>blocks = Map.empty, calls = []\<rparr>) \<and>
   fst (gstack_create True (Alloc_ok 0 zeros) 4 8 \<lparr>blocks = Map.empty, calls = []\<rparr>)
     = Some \<lparr>s_data = 0, s_size = 0, s_cap = 4, s_memb_size = 8\<rparr> \<and>
   fst (stack_create True (Alloc_ok 0 zeros) 4 8 \<lparr>blocks = Map.empty, calls = []\<rparr>)
     = Some \<lparr>s_data = 0, s_size = 0, s_cap = 4, s_memb_size = 8\<rparr> \<and>
   map_option length
     (blocks (snd (gstack_create True (Alloc_ok 0 zeros) 4 8 \<lparr>blocks = Map.empty, calls = []\<rparr>)) 0)
     = Some 32 \<and>
   map_option length
     (blocks (snd (stack_create True (Alloc_ok 0 zeros) 4 8 \<lparr>blocks = Map.empty, calls = []\<rparr>)) 0)
     = Some 32 \<and>
   calls (snd (gstack_create True (Alloc_ok 0 zeros) 4 8 \<lparr>blocks = Map.empty, calls = []\<rparr>))
     = [Malloc_hdr, Malloc 32] \<and>
   calls (snd (stack_create True (Alloc_ok 0 zeros) 4 8 \<lparr>blocks = Map.empty, calls = []\<rparr>))
     = [Malloc_hdr, Malloc 32] \<and>
   gstack_create True Alloc_fail 4 8 \<lparr>blocks = Map.empty, calls = []\<rparr>
     = (None, \<lparr>blocks = Map.empty, calls = [Malloc_hdr, Malloc 32, Free_hdr]\<rparr>) \<and>
   stack_create True Alloc_fail 4 8 \<lparr>blocks = Map.empty, calls = []\<rparr>
     = (None, \<lparr>blocks = Map.empty, calls = [Malloc_hdr, Malloc 32, Free_hdr]\<rparr>)"
proof -
  have a: "unat SIZE_MAX < unat (SIZE_MAX - 1000) * unat (8 :: size_t)"
    by (simp add: SIZE_MAX_def)
  have b: "(4 :: size_t) \<noteq> 0 \<and> (8 :: size_t) \<noteq> 0 \<and>
      unat (4 :: size_t) * unat (8 :: size_t) \<le> unat SIZE_MAX"
    by (simp add: SIZE_MAX_def)
  from a b
    create_guard_and_result [of "SIZE_MAX - 1000" 8 True "Alloc_ok 0 zeros"
      "\<lparr>blocks = Map.empty, calls = []\<rparr>"]
    create_guard_and_result [of 4 8 True "Alloc_ok 0 zeros"
      "\<lparr>blocks = Map.empty, calls = []\<rparr>" 0 zeros
      "\<lparr>s_data = 0, s_size = 0, s_cap = 4, s_memb_size = 8\<rparr>"
      "\<lparr>blocks = [0 \<mapsto> map zeros [0..<32]], calls = [Malloc_hdr, Malloc 32]\<rparr>"]
  show ?thesis by simp
qed

section \<open>Pop on an empty stack\<close>

text \<open>
  C7. On an empty stack pop returns \<^verbatim>\<open>NULL\<close>, and the structure and the memory are
  what they were; so the size reported afterwards is still 0. Both variants.
\<close>

theorem pop_empty:
  "s_size s = 0 \<Longrightarrow>
     gstack_pop oc m s = Some (None, m, s) \<and> stack_pop oc m s = Some (None, m, s) \<and>
     map_option gstack_size (stack_of (gstack_pop oc m s)) = Some (gstack_size s) \<and>
     map_option stack_size (stack_of (stack_pop oc m s)) = Some (stack_size s)"
  by (simp add: gstack_pop_def stack_pop_def gstack_is_empty_def stack_is_empty_def stack_of_def)

theorem pop_empty_witness:
  "gstack_pop Alloc_fail (one_block [0, 0]) \<lparr>s_data = 0, s_size = 0, s_cap = 2, s_memb_size = 1\<rparr>
     = Some (None, one_block [0, 0], \<lparr>s_data = 0, s_size = 0, s_cap = 2, s_memb_size = 1\<rparr>) \<and>
   stack_pop Alloc_fail (one_block [0, 0]) \<lparr>s_data = 0, s_size = 0, s_cap = 2, s_memb_size = 1\<rparr>
     = Some (None, one_block [0, 0], \<lparr>s_data = 0, s_size = 0, s_cap = 2, s_memb_size = 1\<rparr>)"
  using pop_empty [of "\<lparr>s_data = 0, s_size = 0, s_cap = 2, s_memb_size = 1\<rparr>" Alloc_fail "one_block [0, 0]"]
  by simp

section \<open>Push on a stack that is not full\<close>

lemma slot_offset:
  fixes i c b :: size_t
  assumes "unat c * unat b \<le> unat SIZE_MAX" and "i < c"
  shows "unat (i * b) = unat i * unat b"
    and "unat i * unat b + unat b \<le> unat c * unat b"
proof -
  have lt: "unat i < unat c" using assms(2) by (simp add: word_less_nat_alt)
  then have "Suc (unat i) * unat b \<le> unat c * unat b"
    by (intro mult_le_mono1) simp
  then show le: "unat i * unat b + unat b \<le> unat c * unat b" by simp
  then have "unat i * unat b \<le> unat SIZE_MAX" using assms(1) by linarith
  then show "unat (i * b) = unat i * unat b" by (rule unat_mult_fits)
qed

lemma succ_below:
  fixes i c :: size_t
  assumes "i < c"
  shows "i + 1 \<noteq> 0" and "unat (i + 1) = unat i + 1" and "i + 1 \<le> c"
proof -
  have lt: "unat i < unat c" using assms by (simp add: word_less_nat_alt)
  have "unat c < 2 ^ LENGTH(64)" by (rule unsigned_less)
  with lt have "unat i + unat (1 :: size_t) < 2 ^ LENGTH(64)" by simp
  then have u: "unat (i + 1) = unat i + unat (1 :: size_t)" by (simp only: unat_add_lem)
  then show u1: "unat (i + 1) = unat i + 1" by simp
  then show "i + 1 \<noteq> 0" by (metis Suc_eq_plus1 nat.distinct(1) unat_0)
  show "i + 1 \<le> c" using u1 lt by (simp add: word_le_nat_alt)
qed

lemma push_copy_in_bounds:
  assumes v: "valid m s" and nf: "s_size s < s_cap s"
    and el: "unat (s_memb_size s) \<le> length elem"
    and bs: "blocks m (s_data s) = Some bs"
  shows "gstack_push_copy elem m s =
      Some (True,
        m\<lparr>blocks := (blocks m)(s_data s \<mapsto>
            take (unat (s_size s) * unat (s_memb_size s)) bs @
            take (unat (s_memb_size s)) elem @
            drop (unat (s_size s) * unat (s_memb_size s) + unat (s_memb_size s)) bs)\<rparr>,
        s\<lparr>s_size := s_size s + 1\<rparr>)"
proof -
  have fits: "unat (s_cap s) * unat (s_memb_size s) \<le> unat SIZE_MAX"
    and len: "unat (s_cap s) * unat (s_memb_size s) \<le> length bs"
    using v bs by (simp_all add: valid_def counters_ok_def)
  note o = slot_offset [OF fits nf]
  have inb: "unat (s_size s) * unat (s_memb_size s) + unat (s_memb_size s) \<le> length bs"
    using o(2) len by linarith
  show ?thesis
    using inb el bs succ_below(1) [OF nf]
    by (simp add: gstack_push_copy_def memcpy_def o(1))
qed

text \<open>
  C10. On a valid stack that is not full, pushing an element of \<open>memb_size\<close> bytes always
  returns true, whatever the allocator would have answered: the allocator is not
  called, the capacity and the buffer address stay, the element's bytes are written at
  index \<open>size\<close> of the buffer and nothing else in memory changes, and the size grows by
  one. Both variants.
\<close>

theorem push_not_full:
  assumes "valid m s" and "s_size s < s_cap s"
    and "unat (s_memb_size s) \<le> length elem"
    and "blocks m (s_data s) = Some bs"
  shows "gstack_push oc elem m s =
      Some (True,
        m\<lparr>blocks := (blocks m)(s_data s \<mapsto>
            take (unat (s_size s) * unat (s_memb_size s)) bs @
            take (unat (s_memb_size s)) elem @
            drop (unat (s_size s) * unat (s_memb_size s) + unat (s_memb_size s)) bs)\<rparr>,
        s\<lparr>s_size := s_size s + 1\<rparr>) \<and>
     stack_push BUFSIZ oc elem m s = gstack_push oc elem m s \<and>
     calls_after (gstack_push oc elem m s) = Some (calls m) \<and>
     unat (s_size s + 1) = unat (s_size s) + 1"
proof -
  have same: "stack_push_copy elem m s = gstack_push_copy elem m s"
    by (simp add: stack_push_copy_def gstack_push_copy_def)
  have nf: "\<not> s_cap s \<le> s_size s" using assms(2) by simp
  have g: "gstack_push oc elem m s = gstack_push_copy elem m s"
    using nf by (simp add: gstack_push_def)
  have k: "stack_push BUFSIZ oc elem m s = gstack_push_copy elem m s"
    using nf same by (simp add: stack_push_def)
  show ?thesis
    using g k push_copy_in_bounds [OF assms] succ_below(2) [OF assms(2)]
    by (simp add: calls_after_def mem_of_def)
qed

theorem push_not_full_witness:
  "valid (one_block [1, 2, 0, 0]) \<lparr>s_data = 0, s_size = 2, s_cap = 4, s_memb_size = 1\<rparr> \<and>
   gstack_push Alloc_fail [7] (one_block [1, 2, 0, 0])
       \<lparr>s_data = 0, s_size = 2, s_cap = 4, s_memb_size = 1\<rparr>
     = Some (True, one_block [1, 2, 7, 0], \<lparr>s_data = 0, s_size = 3, s_cap = 4, s_memb_size = 1\<rparr>) \<and>
   stack_push 8192 Alloc_fail [7] (one_block [1, 2, 0, 0])
       \<lparr>s_data = 0, s_size = 2, s_cap = 4, s_memb_size = 1\<rparr>
     = Some (True, one_block [1, 2, 7, 0], \<lparr>s_data = 0, s_size = 3, s_cap = 4, s_memb_size = 1\<rparr>) \<and>
   calls_after (gstack_push Alloc_fail [7] (one_block [1, 2, 0, 0])
       \<lparr>s_data = 0, s_size = 2, s_cap = 4, s_memb_size = 1\<rparr>) = Some []"
proof -
  have v: "valid (one_block [1, 2, 0, 0]) \<lparr>s_data = 0, s_size = 2, s_cap = 4, s_memb_size = 1\<rparr>"
    by (simp add: valid_def counters_ok_def one_block_def SIZE_MAX_def)
  have b: "blocks (one_block [1, 2, 0, 0]) (s_data \<lparr>s_data = 0, s_size = 2, s_cap = 4, s_memb_size = 1\<rparr>)
      = Some [1, 2, 0, 0]"
    by (simp add: one_block_def)
  show ?thesis
    using v push_not_full [OF v _ _ b, of "[7]" Alloc_fail 8192]
    by (simp add: one_block_def calls_after_def mem_of_def)
qed

section \<open>Failing pushes\<close>

text \<open>
  C1. A push that fails must leave length, capacity and buffer as they were. Both
  variants double \<^verbatim>\<open>s->cap\<close> before the overflow guard and before \<^verbatim>\<open>realloc\<close>, and return
  false from either without restoring it. Here a full stack of capacity 2 over a block
  of 2 bytes: \<^verbatim>\<open>realloc\<close> fails, push returns false, the block is as it was, but the
  capacity is now 4. The stack is no longer valid, and the next push, which sees a stack
  that is not full, writes outside the block.
\<close>

theorem push_failure_keeps_doubled_cap:
  "valid (one_block [1, 2]) \<lparr>s_data = 0, s_size = 2, s_cap = 2, s_memb_size = 1\<rparr> \<and>
   gstack_push Alloc_fail [7] (one_block [1, 2])
       \<lparr>s_data = 0, s_size = 2, s_cap = 2, s_memb_size = 1\<rparr>
     = Some (False, \<lparr>blocks = [0 \<mapsto> [1, 2]], calls = [Realloc 0 4]\<rparr>,
         \<lparr>s_data = 0, s_size = 2, s_cap = 4, s_memb_size = 1\<rparr>) \<and>
   stack_push 8192 Alloc_fail [7] (one_block [1, 2])
       \<lparr>s_data = 0, s_size = 2, s_cap = 2, s_memb_size = 1\<rparr>
     = Some (False, \<lparr>blocks = [0 \<mapsto> [1, 2]], calls = [Realloc 0 4]\<rparr>,
         \<lparr>s_data = 0, s_size = 2, s_cap = 4, s_memb_size = 1\<rparr>) \<and>
   \<not> valid \<lparr>blocks = [0 \<mapsto> [1, 2]], calls = [Realloc 0 4]\<rparr>
       \<lparr>s_data = 0, s_size = 2, s_cap = 4, s_memb_size = 1\<rparr> \<and>
   gstack_push Alloc_fail [7] \<lparr>blocks = [0 \<mapsto> [1, 2]], calls = [Realloc 0 4]\<rparr>
       \<lparr>s_data = 0, s_size = 2, s_cap = 4, s_memb_size = 1\<rparr> = None"
  by (simp add: gstack_push_def stack_push_def stack_push_realloc_def gstack_push_copy_def
      memcpy_def realloc_def one_block_def SIZE_MAX_def valid_def counters_ok_def)

text \<open>
  C5. The invariants must hold after every call. From the same defect as C1: a full
  stack of \<open>2 ^ 60\<close> elements of 8 bytes satisfies both invariants; push doubles the
  capacity, the overflow guard fires, push returns false, and the capacity left behind
  times the element size is \<open>2 ^ 64\<close>.
\<close>

theorem push_failure_breaks_counters:
  "counters_ok \<lparr>s_data = 0, s_size = 2 ^ 60, s_cap = 2 ^ 60, s_memb_size = 8\<rparr> \<and>
   gstack_push oc elem m \<lparr>s_data = 0, s_size = 2 ^ 60, s_cap = 2 ^ 60, s_memb_size = 8\<rparr>
     = Some (False, m, \<lparr>s_data = 0, s_size = 2 ^ 60, s_cap = 2 ^ 61, s_memb_size = 8\<rparr>) \<and>
   stack_push BUFSIZ oc elem m \<lparr>s_data = 0, s_size = 2 ^ 60, s_cap = 2 ^ 60, s_memb_size = 8\<rparr>
     = Some (False, m, \<lparr>s_data = 0, s_size = 2 ^ 60, s_cap = 2 ^ 61, s_memb_size = 8\<rparr>) \<and>
   \<not> counters_ok \<lparr>s_data = 0, s_size = 2 ^ 60, s_cap = 2 ^ 61, s_memb_size = 8\<rparr> \<and>
   unat (s_cap \<lparr>s_data = 0, s_size = 2 ^ 60, s_cap = 2 ^ 61, s_memb_size = 8\<rparr>) *
     unat (s_memb_size \<lparr>s_data = 0, s_size = 2 ^ 60, s_cap = 2 ^ 61, s_memb_size = 8\<rparr>) = 2 ^ 64"
  by (simp add: gstack_push_def stack_push_def stack_push_realloc_def SIZE_MAX_def counters_ok_def)

section \<open>Failing shrinks\<close>

text \<open>
  C4. A pop whose shrinking \<^verbatim>\<open>realloc\<close> fails must leave the capacity as it was. In
  gstack.h an odd capacity is incremented before the call and stays so when the call
  fails: capacity 9 over a block of 9 bytes becomes 10, and the stack is no longer
  valid. In stack.h the same pop leaves 9.
\<close>

theorem gstack_pop_failed_shrink_grows_odd_cap:
  "valid (one_block [1, 2, 3, 0, 0, 0, 0, 0, 0]) \<lparr>s_data = 0, s_size = 3, s_cap = 9, s_memb_size = 1\<rparr> \<and>
   gstack_pop Alloc_fail (one_block [1, 2, 3, 0, 0, 0, 0, 0, 0])
       \<lparr>s_data = 0, s_size = 3, s_cap = 9, s_memb_size = 1\<rparr>
     = Some (Some (0, 2), \<lparr>blocks = [0 \<mapsto> [1, 2, 3, 0, 0, 0, 0, 0, 0]], calls = [Realloc 0 4]\<rparr>,
         \<lparr>s_data = 0, s_size = 2, s_cap = 10, s_memb_size = 1\<rparr>) \<and>
   \<not> valid \<lparr>blocks = [0 \<mapsto> [1, 2, 3, 0, 0, 0, 0, 0, 0]], calls = [Realloc 0 4]\<rparr>
       \<lparr>s_data = 0, s_size = 2, s_cap = 10, s_memb_size = 1\<rparr> \<and>
   stack_pop Alloc_fail (one_block [1, 2, 3, 0, 0, 0, 0, 0, 0])
       \<lparr>s_data = 0, s_size = 3, s_cap = 9, s_memb_size = 1\<rparr>
     = Some (Some (0, 2), \<lparr>blocks = [0 \<mapsto> [1, 2, 3, 0, 0, 0, 0, 0, 0]], calls = [Realloc 0 4]\<rparr>,
         \<lparr>s_data = 0, s_size = 2, s_cap = 9, s_memb_size = 1\<rparr>)"
  by (simp add: gstack_pop_def stack_pop_def gstack_is_empty_def stack_is_empty_def
      realloc_def one_block_def SIZE_MAX_def valid_def counters_ok_def Let_def)

section \<open>The pointer that pop returns\<close>

text \<open>
  C8. What peek shows before a pop must be what the pop returns. stack.h computes the
  pointer it returns before the shrinking \<^verbatim>\<open>realloc\<close>; when that call moves the buffer,
  the pointer is into the released block. Here peek shows the byte 3, the pop shrinks a
  buffer of capacity 8 and the allocator moves it from address 0 to address 1: the
  pointer returned is \<open>(0, 2)\<close> and nothing can be read through it. gstack.h computes
  the pointer after the call and returns \<open>(1, 2)\<close>, where the byte 3 is.
\<close>

theorem stack_pop_returns_stale_pointer:
  "valid (one_block [1, 2, 3, 0, 0, 0, 0, 0]) \<lparr>s_data = 0, s_size = 3, s_cap = 8, s_memb_size = 1\<rparr> \<and>
   peeked (one_block [1, 2, 3, 0, 0, 0, 0, 0]) \<lparr>s_data = 0, s_size = 3, s_cap = 8, s_memb_size = 1\<rparr>
     (stack_peek \<lparr>s_data = 0, s_size = 3, s_cap = 8, s_memb_size = 1\<rparr>) = Some [3] \<and>
   ret_of (stack_pop (Alloc_ok 1 zeros) (one_block [1, 2, 3, 0, 0, 0, 0, 0])
     \<lparr>s_data = 0, s_size = 3, s_cap = 8, s_memb_size = 1\<rparr>) = Some (Some (0, 2)) \<and>
   popped (stack_pop (Alloc_ok 1 zeros) (one_block [1, 2, 3, 0, 0, 0, 0, 0])
     \<lparr>s_data = 0, s_size = 3, s_cap = 8, s_memb_size = 1\<rparr>) = None \<and>
   popped (gstack_pop (Alloc_ok 1 zeros) (one_block [1, 2, 3, 0, 0, 0, 0, 0])
     \<lparr>s_data = 0, s_size = 3, s_cap = 8, s_memb_size = 1\<rparr>) = Some [3]"
  by (simp add: gstack_pop_def stack_pop_def gstack_is_empty_def stack_is_empty_def stack_peek_def
      realloc_def one_block_def SIZE_MAX_def valid_def counters_ok_def Let_def
      peeked_def popped_def ret_of_def load_def)

section \<open>The two variants side by side\<close>

text \<open>
  C9. Away from pushes above half the ceiling and shrinks at odd capacity the two
  variants must return the same results. From the same defect as C8: on a pop that
  shrinks an even capacity, with a \<^verbatim>\<open>realloc\<close> that moves the buffer, the two reach the
  same structure but gstack.h returns a pointer into the new block and stack.h one into
  the released block.
\<close>

theorem variants_differ_on_moved_shrink:
  "stack_of (gstack_pop (Alloc_ok 1 zeros) (one_block [1, 2, 3, 0, 0, 0, 0, 0])
       \<lparr>s_data = 0, s_size = 3, s_cap = 8, s_memb_size = 1\<rparr>)
     = Some \<lparr>s_data = 1, s_size = 2, s_cap = 4, s_memb_size = 1\<rparr> \<and>
   stack_of (stack_pop (Alloc_ok 1 zeros) (one_block [1, 2, 3, 0, 0, 0, 0, 0])
       \<lparr>s_data = 0, s_size = 3, s_cap = 8, s_memb_size = 1\<rparr>)
     = Some \<lparr>s_data = 1, s_size = 2, s_cap = 4, s_memb_size = 1\<rparr> \<and>
   ret_of (gstack_pop (Alloc_ok 1 zeros) (one_block [1, 2, 3, 0, 0, 0, 0, 0])
       \<lparr>s_data = 0, s_size = 3, s_cap = 8, s_memb_size = 1\<rparr>) = Some (Some (1, 2)) \<and>
   ret_of (stack_pop (Alloc_ok 1 zeros) (one_block [1, 2, 3, 0, 0, 0, 0, 0])
       \<lparr>s_data = 0, s_size = 3, s_cap = 8, s_memb_size = 1\<rparr>) = Some (Some (0, 2))"
  by (simp add: gstack_pop_def stack_pop_def gstack_is_empty_def stack_is_empty_def
      realloc_def one_block_def Let_def ret_of_def stack_of_def)

section \<open>Push on a full stack\<close>

lemma push_copy_same: "stack_push_copy elem m s = gstack_push_copy elem m s"
  by (simp add: stack_push_copy_def gstack_push_copy_def)

lemma gstack_push_full:
  assumes "s_cap s \<le> s_size s" and "\<not> SIZE_MAX div 2 < s_cap s"
  shows "gstack_push oc elem m s = stack_push_realloc oc elem m (s\<lparr>s_cap := s_cap s * 2\<rparr>)"
  using assms
  by (simp add: gstack_push_def stack_push_realloc_def push_copy_same Let_def
      split: option.splits prod.splits)

lemma push_realloc_result:
  assumes bs: "blocks m (s_data s) = Some bs" and mz: "s_memb_size s \<noteq> 0"
    and room: "s_size s < s_cap s" and el: "unat (s_memb_size s) \<le> length elem"
  shows "ret_of (stack_push_realloc oc elem m s) =
      Some (unat (s_cap s) * unat (s_memb_size s) \<le> unat SIZE_MAX \<and> oc \<noteq> Alloc_fail)"
    and "ret_of (stack_push_realloc oc elem m s) = Some True \<Longrightarrow>
      cap_after (stack_push_realloc oc elem m s) = Some (unat (s_cap s))"
proof -
  let ?r = "stack_push_realloc oc elem m s"
  have both: "ret_of ?r =
      Some (unat (s_cap s) * unat (s_memb_size s) \<le> unat SIZE_MAX \<and> oc \<noteq> Alloc_fail) \<and>
      (ret_of ?r = Some True \<longrightarrow> cap_after ?r = Some (unat (s_cap s)))"
  proof (cases "unat (s_cap s) * unat (s_memb_size s) \<le> unat SIZE_MAX")
    case False
    then have "SIZE_MAX div s_memb_size s < s_cap s"
      using guard_iff [OF mz, of "s_cap s"] by simp
    then have "?r = Some (False, m, s)"
      using mz by (simp add: stack_push_realloc_def)
    with False show ?thesis by (simp add: ret_of_def)
  next
    case fits: True
    then have g: "\<not> SIZE_MAX div s_memb_size s < s_cap s"
      using guard_iff [OF mz, of "s_cap s"] by simp
    have n: "unat (s_cap s * s_memb_size s) = unat (s_cap s) * unat (s_memb_size s)"
      by (rule unat_mult_fits [OF fits])
    show ?thesis
    proof (cases oc)
      case Alloc_fail
      then have "?r = Some (False, m\<lparr>calls := calls m @ [Realloc (s_data s)
          (unat (s_cap s) * unat (s_memb_size s))]\<rparr>, s)"
        using mz g bs by (simp add: stack_push_realloc_def realloc_def n)
      with Alloc_fail show ?thesis by (simp add: ret_of_def)
    next
      case (Alloc_ok b junk)
      let ?n = "unat (s_cap s) * unat (s_memb_size s)"
      let ?nb = "take ?n bs @ map junk [length bs..<?n]"
      let ?m1 = "m\<lparr>blocks := ((blocks m)(s_data s := None))(b \<mapsto> ?nb),
          calls := calls m @ [Realloc (s_data s) ?n]\<rparr>"
      let ?s1 = "s\<lparr>s_data := b\<rparr>"
      have r: "?r = gstack_push_copy elem ?m1 ?s1"
        using mz g bs Alloc_ok
        by (simp add: stack_push_realloc_def realloc_def n push_copy_same)
      have nz: "s_cap s \<noteq> 0" using room by (metis word_not_simps(1))
      have le: "s_size s \<le> s_cap s" using room by (rule less_imp_le)
      have v: "valid ?m1 ?s1"
        using fits mz le nz by (simp add: valid_def counters_ok_def min_def)
      have b1: "blocks ?m1 (s_data ?s1) = Some ?nb" by simp
      have "gstack_push_copy elem ?m1 ?s1 = Some (True,
          ?m1\<lparr>blocks := (blocks ?m1)(s_data ?s1 \<mapsto>
            take (unat (s_size ?s1) * unat (s_memb_size ?s1)) ?nb @
            take (unat (s_memb_size ?s1)) elem @
            drop (unat (s_size ?s1) * unat (s_memb_size ?s1) + unat (s_memb_size ?s1)) ?nb)\<rparr>,
          ?s1\<lparr>s_size := s_size ?s1 + 1\<rparr>)"
        by (rule push_copy_in_bounds [OF v _ _ b1]) (use room el in simp_all)
      with r fits Alloc_ok show ?thesis
        by (simp add: ret_of_def cap_after_def stack_of_def)
    qed
  qed
  from both show "ret_of ?r =
      Some (unat (s_cap s) * unat (s_memb_size s) \<le> unat SIZE_MAX \<and> oc \<noteq> Alloc_fail)"
    by simp
  from both show "ret_of ?r = Some True \<Longrightarrow> cap_after ?r = Some (unat (s_cap s))"
    by simp
qed


lemma wrap_iff:
  fixes c b :: size_t
  shows "(c + b < c) = (unat SIZE_MAX < unat c + unat b)"
proof -
  have "(c + b < c) = (\<not> c \<le> c + b)" by auto
  also have "\<dots> = (\<not> unat c + unat b < 2 ^ LENGTH(64))" by (simp only: no_olen_add_nat)
  also have "\<dots> = (unat SIZE_MAX < unat c + unat b)" by (auto simp: unat_SIZE_MAX)
  finally show ?thesis .
qed

lemma half_le_iff:
  fixes c :: size_t
  shows "(c \<le> SIZE_MAX div 2) = (\<not> SIZE_MAX div 2 < c)"
  by auto

text \<open>
  C2, as the code has it. On a valid full stack, with an element of \<open>memb_size\<close> bytes and
  \<^verbatim>\<open>BUFSIZ\<close> not 0. gstack.h: push returns true exactly when the capacity is at most
  \<^verbatim>\<open>SIZE_MAX / 2\<close>, twice the capacity times the element size fits \<^verbatim>\<open>size_t\<close> and the
  reallocation succeeds, and the capacity is then doubled; above \<^verbatim>\<open>SIZE_MAX / 2\<close> it
  returns false, there is no linear growth. stack.h: the capacity grows to twice its
  value when it is at most \<^verbatim>\<open>SIZE_MAX / 2\<close>, and by \<^verbatim>\<open>BUFSIZ\<close> otherwise; push returns
  true exactly when that sum does not wrap, the grown capacity times the element size
  fits and the reallocation succeeds, and the capacity is then the grown one.
\<close>

theorem push_full_growth:
  assumes v: "valid m s" and full: "s_size s = s_cap s"
    and el: "unat (s_memb_size s) \<le> length elem" and bz: "BUFSIZ \<noteq> 0"
  shows
    "ret_of (gstack_push oc elem m s) =
       Some (s_cap s \<le> SIZE_MAX div 2 \<and>
             2 * unat (s_cap s) * unat (s_memb_size s) \<le> unat SIZE_MAX \<and>
             oc \<noteq> Alloc_fail) \<and>
     (ret_of (gstack_push oc elem m s) = Some True \<longrightarrow>
        cap_after (gstack_push oc elem m s) = Some (2 * unat (s_cap s))) \<and>
     ret_of (stack_push BUFSIZ oc elem m s) =
       Some ((s_cap s \<le> SIZE_MAX div 2 \<or> unat (s_cap s) + unat BUFSIZ \<le> unat SIZE_MAX) \<and>
             (if s_cap s \<le> SIZE_MAX div 2 then 2 * unat (s_cap s)
              else unat (s_cap s) + unat BUFSIZ) * unat (s_memb_size s) \<le> unat SIZE_MAX \<and>
             oc \<noteq> Alloc_fail) \<and>
     (ret_of (stack_push BUFSIZ oc elem m s) = Some True \<longrightarrow>
        cap_after (stack_push BUFSIZ oc elem m s) =
          Some (if s_cap s \<le> SIZE_MAX div 2 then 2 * unat (s_cap s)
                else unat (s_cap s) + unat BUFSIZ))"
proof -
  obtain bs where bs: "blocks m (s_data s) = Some bs"
    using v by (auto simp: valid_def split: option.splits)
  have mz: "s_memb_size s \<noteq> 0" and cz: "s_cap s \<noteq> 0"
    using v by (simp_all add: valid_def)
  have cpos: "0 < unat (s_cap s)" using cz by (simp add: unat_gt_0)
  have bpos: "0 < unat BUFSIZ" using bz by (simp add: unat_gt_0)
  have ful: "s_cap s \<le> s_size s" using full by simp
  show ?thesis
  proof (cases "SIZE_MAX div 2 < s_cap s")
    case False
    let ?s1 = "s\<lparr>s_cap := s_cap s * 2\<rparr>"
    have d: "unat (s_cap s * 2) = 2 * unat (s_cap s)" by (rule unat_double [OF False])
    have room: "s_size ?s1 < s_cap ?s1"
      using cpos by (simp add: full word_less_nat_alt d)
    have g: "gstack_push oc elem m s = stack_push_realloc oc elem m ?s1"
      by (rule gstack_push_full [OF ful False])
    have k: "stack_push BUFSIZ oc elem m s = stack_push_realloc oc elem m ?s1"
      using ful False by (simp add: stack_push_def)
    have r: "ret_of (stack_push_realloc oc elem m ?s1) =
        Some (2 * unat (s_cap s) * unat (s_memb_size s) \<le> unat SIZE_MAX \<and> oc \<noteq> Alloc_fail)"
      using push_realloc_result(1) [of m ?s1 bs elem oc] bs mz room el by (simp add: d)
    have c: "ret_of (stack_push_realloc oc elem m ?s1) = Some True \<longrightarrow>
        cap_after (stack_push_realloc oc elem m ?s1) = Some (2 * unat (s_cap s))"
      using push_realloc_result(2) [of m ?s1 bs elem oc] bs mz room el by (simp add: d)
    from False g k r c show ?thesis by (simp add: half_le_iff)
  next
    case True
    have g: "gstack_push oc elem m s = Some (False, m, s)"
      using ful True by (simp add: gstack_push_def)
    show ?thesis
    proof (cases "s_cap s + BUFSIZ < s_cap s")
      case wrap: True
      have k: "stack_push BUFSIZ oc elem m s = Some (False, m, s)"
        using ful True wrap by (simp add: stack_push_def)
      have "unat SIZE_MAX < unat (s_cap s) + unat BUFSIZ"
        using wrap by (simp only: wrap_iff)
      with True g k show ?thesis by (simp add: half_le_iff ret_of_def)
    next
      case False
      let ?s1 = "s\<lparr>s_cap := s_cap s + BUFSIZ\<rparr>"
      have d: "unat (s_cap s + BUFSIZ) = unat (s_cap s) + unat BUFSIZ"
        by (rule unat_linear [OF False])
      have nw: "unat (s_cap s) + unat BUFSIZ \<le> unat SIZE_MAX"
        using False by (simp add: wrap_iff)
      have room: "s_size ?s1 < s_cap ?s1"
        using bpos by (simp add: full word_less_nat_alt d)
      have k: "stack_push BUFSIZ oc elem m s = stack_push_realloc oc elem m ?s1"
        using ful True False by (simp add: stack_push_def)
      have r: "ret_of (stack_push_realloc oc elem m ?s1) =
          Some ((unat (s_cap s) + unat BUFSIZ) * unat (s_memb_size s) \<le> unat SIZE_MAX \<and>
                oc \<noteq> Alloc_fail)"
        using push_realloc_result(1) [of m ?s1 bs elem oc] bs mz room el by (simp add: d)
      have c: "ret_of (stack_push_realloc oc elem m ?s1) = Some True \<longrightarrow>
          cap_after (stack_push_realloc oc elem m ?s1) = Some (unat (s_cap s) + unat BUFSIZ)"
        using push_realloc_result(2) [of m ?s1 bs elem oc] bs mz room el by (simp add: d)
      from True g k r c nw show ?thesis by (simp add: half_le_iff ret_of_def)
    qed
  qed
qed

theorem push_full_growth_witness:
  "valid (one_block [1, 2]) \<lparr>s_data = 0, s_size = 2, s_cap = 2, s_memb_size = 1\<rparr> \<and>
   ret_of (gstack_push (Alloc_ok 1 zeros) [7] (one_block [1, 2])
     \<lparr>s_data = 0, s_size = 2, s_cap = 2, s_memb_size = 1\<rparr>) = Some True \<and>
   cap_after (gstack_push (Alloc_ok 1 zeros) [7] (one_block [1, 2])
     \<lparr>s_data = 0, s_size = 2, s_cap = 2, s_memb_size = 1\<rparr>) = Some 4 \<and>
   ret_of (stack_push 8192 (Alloc_ok 1 zeros) [7] (one_block [1, 2])
     \<lparr>s_data = 0, s_size = 2, s_cap = 2, s_memb_size = 1\<rparr>) = Some True \<and>
   cap_after (stack_push 8192 (Alloc_ok 1 zeros) [7] (one_block [1, 2])
     \<lparr>s_data = 0, s_size = 2, s_cap = 2, s_memb_size = 1\<rparr>) = Some 4"
proof -
  have v: "valid (one_block [1, 2]) \<lparr>s_data = 0, s_size = 2, s_cap = 2, s_memb_size = 1\<rparr>"
    by (simp add: valid_def counters_ok_def one_block_def SIZE_MAX_def)
  have h: "(2 :: size_t) \<le> SIZE_MAX div 2" by (simp add: SIZE_MAX_def)
  have u: "unat SIZE_MAX = 18446744073709551615" by (simp add: SIZE_MAX_def)
  show ?thesis
    using v push_full_growth [OF v, of "[7]" 8192 "Alloc_ok 1 zeros"] h u
    by simp
qed

text \<open>
  C2, as stated, fails in gstack.h: a valid full stack of \<open>2 ^ 63\<close> one-byte elements is
  above \<^verbatim>\<open>SIZE_MAX / 2\<close>, and adding a \<^verbatim>\<open>BUFSIZ\<close> of 8192 to its capacity does not wrap,
  yet push returns false and leaves the capacity as it is.
\<close>

theorem gstack_push_no_linear_growth:
  "valid (one_block (replicate (2 ^ 63) 0)) \<lparr>s_data = 0, s_size = 2 ^ 63, s_cap = 2 ^ 63, s_memb_size = 1\<rparr> \<and>
   \<not> (2 ^ 63 :: size_t) \<le> SIZE_MAX div 2 \<and>
   \<not> (2 ^ 63 + 8192 :: size_t) < 2 ^ 63 \<and>
   gstack_push (Alloc_ok 1 zeros) [7] (one_block (replicate (2 ^ 63) 0))
       \<lparr>s_data = 0, s_size = 2 ^ 63, s_cap = 2 ^ 63, s_memb_size = 1\<rparr>
     = Some (False, one_block (replicate (2 ^ 63) 0),
         \<lparr>s_data = 0, s_size = 2 ^ 63, s_cap = 2 ^ 63, s_memb_size = 1\<rparr>)"
  by (simp add: gstack_push_def valid_def counters_ok_def one_block_def SIZE_MAX_def)

section \<open>Pop and the shrink policy\<close>

lemma shrink_test_iff:
  fixes n c :: size_t
  assumes "n \<noteq> 0"
  shows "(n - 1 \<noteq> 0 \<and> n - 1 \<le> c div 4) = (1 < unat n \<and> unat n - 1 \<le> unat c div 4)"
proof -
  have m1: "unat (n - 1) = unat n - 1" using assms by (rule unat_minus_one)
  have pos: "0 < unat n" using assms by (simp add: unat_gt_0)
  have a: "(n - 1 \<noteq> 0) = (1 < unat n)"
  proof -
    have "(n - 1 \<noteq> 0) = (0 < unat (n - 1))" by (simp add: unat_gt_0)
    also have "\<dots> = (1 < unat n)" using m1 pos by auto
    finally show ?thesis .
  qed
  have b: "(n - 1 \<le> c div 4) = (unat n - 1 \<le> unat c div 4)"
    by (simp add: word_le_nat_alt unat_div m1)
  show ?thesis by (simp only: a b)
qed

lemma half_bytes:
  fixes c b :: size_t
  assumes "unat c * unat b \<le> unat SIZE_MAX"
  shows "unat (c div 2 * b) = unat c div 2 * unat b"
    and "unat (b * (c div 2)) = unat c div 2 * unat b"
proof -
  have h: "unat (c div 2) = unat c div 2" by (simp add: unat_div)
  have "unat c div 2 * unat b \<le> unat c * unat b" by (intro mult_le_mono1) simp
  then have "unat c div 2 * unat b \<le> unat SIZE_MAX" using assms by (rule order_trans)
  then have "unat (c div 2) * unat b \<le> unat SIZE_MAX" by (simp only: h)
  then have "unat (c div 2 * b) = unat (c div 2) * unat b" by (rule unat_mult_fits)
  then show "unat (c div 2 * b) = unat c div 2 * unat b" by (simp add: h)
  then show "unat (b * (c div 2)) = unat c div 2 * unat b" by (simp add: mult.commute)
qed

lemma gstack_pop_observed:
  assumes v: "valid m s" and ne: "s_size s \<noteq> 0"
  shows "size_after (gstack_pop oc m s) = Some (unat (s_size s) - 1) \<and>
     calls_after (gstack_pop oc m s) =
       Some (calls m @
         (if 1 < unat (s_size s) \<and> unat (s_size s) - 1 \<le> unat (s_cap s) div 4
          then [Realloc (s_data s) (unat (s_cap s) div 2 * unat (s_memb_size s))] else [])) \<and>
     (1 < unat (s_size s) \<and> unat (s_size s) - 1 \<le> unat (s_cap s) div 4 \<and> oc \<noteq> Alloc_fail \<longrightarrow>
        cap_after (gstack_pop oc m s) = Some (unat (s_cap s) div 2)) \<and>
     (\<not> (1 < unat (s_size s) \<and> unat (s_size s) - 1 \<le> unat (s_cap s) div 4) \<longrightarrow>
        cap_after (gstack_pop oc m s) = Some (unat (s_cap s)) \<and>
        mem_of (gstack_pop oc m s) = Some m)"
proof -
  obtain bs where bs: "blocks m (s_data s) = Some bs"
    using v by (auto simp: valid_def split: option.splits)
  have fits: "unat (s_cap s) * unat (s_memb_size s) \<le> unat SIZE_MAX"
    using v by (simp add: valid_def counters_ok_def)
  note t = shrink_test_iff [OF ne, of "s_cap s"]
  note hb = half_bytes(2) [OF fits]
  have m1: "unat (s_size s - 1) = unat (s_size s) - 1" using ne by (rule unat_minus_one)
  show ?thesis
  proof (cases "1 < unat (s_size s) \<and> unat (s_size s) - 1 \<le> unat (s_cap s) div 4")
    case False
    then have "\<not> (s_size s - 1 \<noteq> 0 \<and> s_size s - 1 \<le> s_cap s div 4)" using t by blast
    then have "gstack_pop oc m s =
        Some (Some (s_data s, unat ((s_size s - 1) * s_memb_size s)), m, s\<lparr>s_size := s_size s - 1\<rparr>)"
      using ne by (auto simp: gstack_pop_def gstack_is_empty_def Let_def)
    with False show ?thesis
      by (auto simp add: size_after_def cap_after_def calls_after_def mem_of_def stack_of_def m1)
  next
    case True
    then have w: "s_size s - 1 \<noteq> 0 \<and> s_size s - 1 \<le> s_cap s div 4" using t by blast
    show ?thesis
    proof (cases oc)
      case Alloc_fail
      with w ne bs True show ?thesis
        by (simp add: gstack_pop_def gstack_is_empty_def Let_def realloc_def hb
            size_after_def cap_after_def calls_after_def mem_of_def stack_of_def m1)
    next
      case (Alloc_ok b junk)
      with w ne bs True show ?thesis
        by (simp add: gstack_pop_def gstack_is_empty_def Let_def realloc_def hb
            size_after_def cap_after_def calls_after_def mem_of_def stack_of_def m1 unat_div)
    qed
  qed
qed

lemma stack_pop_observed:
  assumes v: "valid m s" and ne: "s_size s \<noteq> 0"
  shows "size_after (stack_pop oc m s) = Some (unat (s_size s) - 1) \<and>
     calls_after (stack_pop oc m s) =
       Some (calls m @
         (if 1 < unat (s_size s) \<and> unat (s_size s) - 1 \<le> unat (s_cap s) div 4
          then [Realloc (s_data s) (unat (s_cap s) div 2 * unat (s_memb_size s))] else [])) \<and>
     (1 < unat (s_size s) \<and> unat (s_size s) - 1 \<le> unat (s_cap s) div 4 \<and> oc \<noteq> Alloc_fail \<longrightarrow>
        cap_after (stack_pop oc m s) = Some (unat (s_cap s) div 2)) \<and>
     (\<not> (1 < unat (s_size s) \<and> unat (s_size s) - 1 \<le> unat (s_cap s) div 4) \<longrightarrow>
        cap_after (stack_pop oc m s) = Some (unat (s_cap s)) \<and>
        mem_of (stack_pop oc m s) = Some m)"
proof -
  obtain bs where bs: "blocks m (s_data s) = Some bs"
    using v by (auto simp: valid_def split: option.splits)
  have fits: "unat (s_cap s) * unat (s_memb_size s) \<le> unat SIZE_MAX"
    using v by (simp add: valid_def counters_ok_def)
  note t = shrink_test_iff [OF ne, of "s_cap s"]
  note hb = half_bytes(1) [OF fits]
  have m1: "unat (s_size s - 1) = unat (s_size s) - 1" using ne by (rule unat_minus_one)
  show ?thesis
  proof (cases "1 < unat (s_size s) \<and> unat (s_size s) - 1 \<le> unat (s_cap s) div 4")
    case False
    then have "\<not> (s_size s - 1 \<noteq> 0 \<and> s_size s - 1 \<le> s_cap s div 4)" using t by blast
    then have "stack_pop oc m s =
        Some (Some (s_data s, unat ((s_size s - 1) * s_memb_size s)), m, s\<lparr>s_size := s_size s - 1\<rparr>)"
      using ne by (auto simp: stack_pop_def stack_is_empty_def Let_def)
    with False show ?thesis
      by (auto simp add: size_after_def cap_after_def calls_after_def mem_of_def stack_of_def m1)
  next
    case True
    then have w: "s_size s - 1 \<noteq> 0 \<and> s_size s - 1 \<le> s_cap s div 4" using t by blast
    show ?thesis
    proof (cases oc)
      case Alloc_fail
      with w ne bs True show ?thesis
        by (simp add: stack_pop_def stack_is_empty_def Let_def realloc_def hb
            size_after_def cap_after_def calls_after_def mem_of_def stack_of_def m1)
    next
      case (Alloc_ok b junk)
      with w ne bs True show ?thesis
        by (simp add: stack_pop_def stack_is_empty_def Let_def realloc_def hb
            size_after_def cap_after_def calls_after_def mem_of_def stack_of_def m1 unat_div)
    qed
  qed
qed


text \<open>
  C3, as the code has it. On a valid stack that is not empty, pop in either variant
  takes one off the length, and calls \<^verbatim>\<open>realloc\<close> once when the new length is not 0 and
  at most a quarter of the capacity, and not at all otherwise; when it does not call
  it, as when the new length is 0, capacity and memory stay as they were. A shrink that
  succeeds leaves half the capacity: in stack.h always, rounded down when the capacity
  was odd, after asking for that many elements; in gstack.h when the capacity was even.
\<close>

theorem pop_shrink_policy:
  assumes "valid m s" and "s_size s \<noteq> 0"
  shows
    "size_after (stack_pop oc m s) = Some (unat (s_size s) - 1) \<and>
     calls_after (stack_pop oc m s) =
       Some (calls m @
         (if 1 < unat (s_size s) \<and> unat (s_size s) - 1 \<le> unat (s_cap s) div 4
          then [Realloc (s_data s) (unat (s_cap s) div 2 * unat (s_memb_size s))] else [])) \<and>
     (1 < unat (s_size s) \<and> unat (s_size s) - 1 \<le> unat (s_cap s) div 4 \<and> oc \<noteq> Alloc_fail \<longrightarrow>
        cap_after (stack_pop oc m s) = Some (unat (s_cap s) div 2)) \<and>
     (\<not> (1 < unat (s_size s) \<and> unat (s_size s) - 1 \<le> unat (s_cap s) div 4) \<longrightarrow>
        cap_after (stack_pop oc m s) = Some (unat (s_cap s)) \<and>
        mem_of (stack_pop oc m s) = Some m) \<and>
     size_after (gstack_pop oc m s) = Some (unat (s_size s) - 1) \<and>
     map_option length (calls_after (gstack_pop oc m s)) =
       Some (length (calls m) +
         (if 1 < unat (s_size s) \<and> unat (s_size s) - 1 \<le> unat (s_cap s) div 4 then 1 else 0)) \<and>
     (1 < unat (s_size s) \<and> unat (s_size s) - 1 \<le> unat (s_cap s) div 4 \<and> oc \<noteq> Alloc_fail \<and>
      even (unat (s_cap s)) \<longrightarrow>
        cap_after (gstack_pop oc m s) = Some (unat (s_cap s) div 2)) \<and>
     (\<not> (1 < unat (s_size s) \<and> unat (s_size s) - 1 \<le> unat (s_cap s) div 4) \<longrightarrow>
        cap_after (gstack_pop oc m s) = Some (unat (s_cap s)) \<and>
        mem_of (gstack_pop oc m s) = Some m)"
proof -
  note g = gstack_pop_observed [OF assms, of oc]
  note k = stack_pop_observed [OF assms, of oc]
  have n: "map_option length (calls_after (gstack_pop oc m s)) =
       Some (length (calls m) +
         (if 1 < unat (s_size s) \<and> unat (s_size s) - 1 \<le> unat (s_cap s) div 4 then 1 else 0))"
    using g by simp
  from g k n show ?thesis by blast
qed

theorem pop_shrink_policy_witness:
  "valid (one_block [1, 2, 3, 0, 0, 0, 0, 0]) \<lparr>s_data = 0, s_size = 3, s_cap = 8, s_memb_size = 1\<rparr> \<and>
   size_after (stack_pop (Alloc_ok 1 zeros) (one_block [1, 2, 3, 0, 0, 0, 0, 0])
     \<lparr>s_data = 0, s_size = 3, s_cap = 8, s_memb_size = 1\<rparr>) = Some 2 \<and>
   calls_after (stack_pop (Alloc_ok 1 zeros) (one_block [1, 2, 3, 0, 0, 0, 0, 0])
     \<lparr>s_data = 0, s_size = 3, s_cap = 8, s_memb_size = 1\<rparr>) = Some [Realloc 0 4] \<and>
   cap_after (stack_pop (Alloc_ok 1 zeros) (one_block [1, 2, 3, 0, 0, 0, 0, 0])
     \<lparr>s_data = 0, s_size = 3, s_cap = 8, s_memb_size = 1\<rparr>) = Some 4 \<and>
   size_after (gstack_pop (Alloc_ok 1 zeros) (one_block [1, 2, 3, 0, 0, 0, 0, 0])
     \<lparr>s_data = 0, s_size = 3, s_cap = 8, s_memb_size = 1\<rparr>) = Some 2 \<and>
   map_option length (calls_after (gstack_pop (Alloc_ok 1 zeros) (one_block [1, 2, 3, 0, 0, 0, 0, 0])
     \<lparr>s_data = 0, s_size = 3, s_cap = 8, s_memb_size = 1\<rparr>)) = Some 1 \<and>
   cap_after (gstack_pop (Alloc_ok 1 zeros) (one_block [1, 2, 3, 0, 0, 0, 0, 0])
     \<lparr>s_data = 0, s_size = 3, s_cap = 8, s_memb_size = 1\<rparr>) = Some 4 \<and>
   calls_after (stack_pop (Alloc_ok 1 zeros) (one_block [1, 2, 3, 0, 0, 0, 0, 0])
     \<lparr>s_data = 0, s_size = 1, s_cap = 8, s_memb_size = 1\<rparr>) = Some [] \<and>
   cap_after (stack_pop (Alloc_ok 1 zeros) (one_block [1, 2, 3, 0, 0, 0, 0, 0])
     \<lparr>s_data = 0, s_size = 1, s_cap = 8, s_memb_size = 1\<rparr>) = Some 8 \<and>
   map_option length (calls_after (gstack_pop (Alloc_ok 1 zeros) (one_block [1, 2, 3, 0, 0, 0, 0, 0])
     \<lparr>s_data = 0, s_size = 1, s_cap = 8, s_memb_size = 1\<rparr>)) = Some 0 \<and>
   cap_after (gstack_pop (Alloc_ok 1 zeros) (one_block [1, 2, 3, 0, 0, 0, 0, 0])
     \<lparr>s_data = 0, s_size = 1, s_cap = 8, s_memb_size = 1\<rparr>) = Some 8"
proof -
  have v3: "valid (one_block [1, 2, 3, 0, 0, 0, 0, 0])
      \<lparr>s_data = 0, s_size = 3, s_cap = 8, s_memb_size = 1\<rparr>"
    by (simp add: valid_def counters_ok_def one_block_def SIZE_MAX_def)
  have v1: "valid (one_block [1, 2, 3, 0, 0, 0, 0, 0])
      \<lparr>s_data = 0, s_size = 1, s_cap = 8, s_memb_size = 1\<rparr>"
    by (simp add: valid_def counters_ok_def one_block_def SIZE_MAX_def)
  have c: "calls (one_block [1, 2, 3, 0, 0, 0, 0, 0]) = []" by (simp add: one_block_def)
  show ?thesis
    using v3 c pop_shrink_policy [OF v3, of "Alloc_ok 1 zeros"]
      pop_shrink_policy [OF v1, of "Alloc_ok 1 zeros"]
    by simp
qed

text \<open>
  C3, as stated, fails at an odd capacity. With capacity 9 and length 3 the pop leaves
  length 2, which is at most \<open>9 div 4\<close>; the shrink succeeds and the capacity is 4 in
  both variants, not \<open>9 div 2 + 1 = 5\<close>.
\<close>

theorem shrink_of_odd_cap_rounds_down:
  "valid (one_block [1, 2, 3, 0, 0, 0, 0, 0, 0]) \<lparr>s_data = 0, s_size = 3, s_cap = 9, s_memb_size = 1\<rparr> \<and>
   cap_after (gstack_pop (Alloc_ok 1 zeros) (one_block [1, 2, 3, 0, 0, 0, 0, 0, 0])
     \<lparr>s_data = 0, s_size = 3, s_cap = 9, s_memb_size = 1\<rparr>) = Some 4 \<and>
   cap_after (stack_pop (Alloc_ok 1 zeros) (one_block [1, 2, 3, 0, 0, 0, 0, 0, 0])
     \<lparr>s_data = 0, s_size = 3, s_cap = 9, s_memb_size = 1\<rparr>) = Some 4 \<and>
   (4 :: nat) \<noteq> 9 div 2 + 1"
  by (simp add: gstack_pop_def stack_pop_def gstack_is_empty_def stack_is_empty_def
      realloc_def one_block_def SIZE_MAX_def valid_def counters_ok_def Let_def
      cap_after_def stack_of_def)

section \<open>Where the two variants agree\<close>

lemma create_variants_agree:
  "stack_create hdr oc cap memb_size m = gstack_create hdr oc cap memb_size m"
  by (simp add: stack_create_def gstack_create_def Let_def)

lemma peek_variants_agree: "stack_peek s = gstack_peek s"
  by (simp add: stack_peek_def gstack_peek_def stack_is_empty_def gstack_is_empty_def)

lemma push_variants_agree:
  assumes "\<not> (s_cap s \<le> s_size s \<and> SIZE_MAX div 2 < s_cap s)"
  shows "stack_push BUFSIZ oc elem m s = gstack_push oc elem m s"
proof (cases "s_cap s \<le> s_size s")
  case True
  with assms have h: "\<not> SIZE_MAX div 2 < s_cap s" by simp
  show ?thesis
    using True h gstack_push_full [OF True h] by (simp add: stack_push_def)
next
  case False
  then show ?thesis
    by (simp add: stack_push_def gstack_push_def push_copy_same)
qed

text \<open>
  A pop that does not attempt a shrink at an odd capacity leaves the same structure and
  memory in both variants; the pointers returned are the same when the reallocation
  does not move the buffer.
\<close>

lemma pop_variants_agree:
  assumes "s_cap s mod 2 = 0 \<or> \<not> (s_size s - 1 \<noteq> 0 \<and> s_size s - 1 \<le> s_cap s div 4)"
  shows "stack_of (stack_pop oc m s) = stack_of (gstack_pop oc m s) \<and>
     mem_of (stack_pop oc m s) = mem_of (gstack_pop oc m s) \<and>
     ((\<forall>b junk. oc = Alloc_ok b junk \<longrightarrow> b = s_data s) \<longrightarrow>
        ret_of (stack_pop oc m s) = ret_of (gstack_pop oc m s))"
proof (cases "blocks m (s_data s)")
  case None
  with assms show ?thesis
    by (auto simp: stack_pop_def gstack_pop_def stack_is_empty_def gstack_is_empty_def
        Let_def realloc_def stack_of_def mem_of_def ret_of_def)
next
  case (Some bs)
  show ?thesis
  proof (cases oc)
    case Alloc_fail
    with assms Some show ?thesis
      by (auto simp: stack_pop_def gstack_pop_def stack_is_empty_def gstack_is_empty_def
          Let_def realloc_def stack_of_def mem_of_def ret_of_def mult.commute
          odd_iff_mod_2_eq_one [symmetric])
  next
    case (Alloc_ok b junk)
    with assms Some show ?thesis
      by (auto simp: stack_pop_def gstack_pop_def stack_is_empty_def gstack_is_empty_def
          Let_def realloc_def stack_of_def mem_of_def ret_of_def mult.commute
          odd_iff_mod_2_eq_one [symmetric])
  qed
qed

section \<open>Peek before pop\<close>

lemma quarter_half:
  fixes n c :: nat
  assumes "1 < n" and "n - 1 \<le> c div 4"
  shows "n \<le> c div 2"
  using assms by linarith

lemma top_slot:
  fixes n c b :: size_t
  assumes fits: "unat c * unat b \<le> unat SIZE_MAX" and le: "n \<le> c" and ne: "n \<noteq> 0"
  shows "unat ((n - 1) * b) = (unat n - 1) * unat b"
    and "(unat n - 1) * unat b + unat b = unat n * unat b"
proof -
  have m1: "unat (n - 1) = unat n - 1" using ne by (rule unat_minus_one)
  have pos: "0 < unat n" using ne by (simp add: unat_gt_0)
  have lt: "n - 1 < c"
    using le pos by (simp add: word_less_nat_alt word_le_nat_alt m1)
  show "unat ((n - 1) * b) = (unat n - 1) * unat b"
    using slot_offset(1) [OF fits lt] by (simp add: m1)
  have "(unat n - 1) * unat b + unat b = Suc (unat n - 1) * unat b" by simp
  also have "\<dots> = unat n * unat b" using pos by simp
  finally show "(unat n - 1) * unat b + unat b = unat n * unat b" .
qed

lemma take_drop_take:
  assumes "k + n \<le> N"
  shows "take n (drop k (take N xs)) = take n (drop k xs)"
proof -
  have "take n (drop k (take N xs)) = take n (take (N - k) (drop k xs))"
    by (simp add: drop_take)
  also have "\<dots> = take n (drop k xs)" using assms by (simp add: min_def)
  finally show ?thesis .
qed

text \<open>
  In gstack.h the element read through the pointer that pop returns is the element peek
  showed just before, on every valid stack that is not empty and whatever the
  allocator does.
\<close>

lemma gstack_pop_returns_peeked:
  assumes v: "valid m s" and ne: "s_size s \<noteq> 0"
  shows "popped (gstack_pop oc m s) = peeked m s (gstack_peek s) \<and>
     peeked m s (gstack_peek s) \<noteq> None"
proof -
  obtain bs where bs: "blocks m (s_data s) = Some bs"
    using v by (auto simp: valid_def split: option.splits)
  have fits: "unat (s_cap s) * unat (s_memb_size s) \<le> unat SIZE_MAX"
    and len: "unat (s_cap s) * unat (s_memb_size s) \<le> length bs"
    and le: "s_size s \<le> s_cap s"
    using v bs by (simp_all add: valid_def counters_ok_def)
  let ?n = "unat (s_memb_size s)"
  let ?k = "(unat (s_size s) - 1) * ?n"
  note ts = top_slot [OF fits le ne]
  have szb: "unat (s_size s) * ?n \<le> unat (s_cap s) * ?n"
    using le by (intro mult_le_mono1) (simp add: word_le_nat_alt)
  have inb: "?k + ?n \<le> length bs" using ts(2) szb len by linarith
  have pk: "peeked m s (gstack_peek s) = Some (take ?n (drop ?k bs))"
    using ne bs inb by (simp add: peeked_def gstack_peek_def gstack_is_empty_def load_def ts(1))
  note t = shrink_test_iff [OF ne, of "s_cap s"]
  note hb = half_bytes(2) [OF fits]
  have pp: "popped (gstack_pop oc m s) = Some (take ?n (drop ?k bs))"
  proof (cases "1 < unat (s_size s) \<and> unat (s_size s) - 1 \<le> unat (s_cap s) div 4")
    case False
    then have "\<not> (s_size s - 1 \<noteq> 0 \<and> s_size s - 1 \<le> s_cap s div 4)" using t by blast
    then have "gstack_pop oc m s =
        Some (Some (s_data s, unat ((s_size s - 1) * s_memb_size s)), m, s\<lparr>s_size := s_size s - 1\<rparr>)"
      using ne by (auto simp: gstack_pop_def gstack_is_empty_def Let_def)
    then show ?thesis using bs inb by (simp add: popped_def load_def ts(1))
  next
    case True
    then have w: "s_size s - 1 \<noteq> 0 \<and> s_size s - 1 \<le> s_cap s div 4" using t by blast
    show ?thesis
    proof (cases oc)
      case Alloc_fail
      with w ne bs inb show ?thesis
        by (simp add: gstack_pop_def gstack_is_empty_def Let_def realloc_def hb
            popped_def load_def ts(1))
    next
      case (Alloc_ok b junk)
      let ?N = "unat (s_cap s) div 2 * ?n"
      have "unat (s_size s) \<le> unat (s_cap s) div 2"
        using True by (intro quarter_half) simp_all
      then have "unat (s_size s) * ?n \<le> ?N" by (intro mult_le_mono1)
      then have kN: "?k + ?n \<le> ?N" using ts(2) by simp
      have "unat (s_cap s) div 2 * ?n \<le> unat (s_cap s) * ?n" by (intro mult_le_mono1) simp
      then have Nl: "?N \<le> length bs" using len by linarith
      have e: "[length bs..<?N] = []" using Nl by simp
      have "gstack_pop oc m s = Some (Some (b, ?k),
          m\<lparr>blocks := ((blocks m)(s_data s := None))(b \<mapsto> take ?N bs @ map junk [length bs..<?N]),
            calls := calls m @ [Realloc (s_data s) ?N]\<rparr>,
          s\<lparr>s_size := s_size s - 1, s_data := b, s_cap := s_cap s div 2\<rparr>)"
        using w ne bs Alloc_ok
        by (simp add: gstack_pop_def gstack_is_empty_def Let_def realloc_def hb ts(1))
      then show ?thesis
        using kN Nl take_drop_take [OF kN, of bs] by (simp add: popped_def load_def e)
    qed
  qed
  from pk pp show ?thesis by simp
qed

end
